theory Spec2Isabelle
  imports Main "HOL-Library.Char_ord" "HOL-Library.List_Lexorder"
begin

section \<open>Strings and Python built-ins used by the store\<close>

text \<open>
  A Python \<open>str\<close> is modelled as a \<open>string\<close>: a list of characters, each character
  standing for one code point below 256. \<open>len\<close> is \<open>length\<close>, and the order \<open><\<close> on
  \<open>str\<close> (code point by code point, a proper prefix first) is the lexicographic order
  on lists over the order on characters.
\<close>

definition NL :: char where
  "NL = CHR 0x0A"

definition CR :: char where
  "CR = CHR 0x0D"

text \<open>\<open>str.isspace\<close> on one code point below 256 (what \<open>\s\<close> matches in a \<open>str\<close> pattern).\<close>

definition is_space :: "char \<Rightarrow> bool" where
  "is_space c \<longleftrightarrow>
     (let n = (of_char c :: nat)
      in (9 \<le> n \<and> n \<le> 13) \<or> (28 \<le> n \<and> n \<le> 32) \<or> n = 133 \<or> n = 160)"

text \<open>
  \<open>s.split(sep, maxsplit)\<close> for a one-character separator: at most \<open>maxsplit\<close> cuts,
  from the left; the rest of the string is the last part.
\<close>

fun py_split :: "char \<Rightarrow> nat \<Rightarrow> string \<Rightarrow> string list" where
  "py_split sep 0 s = [s]"
| "py_split sep (Suc n) s =
     (if sep \<in> set s
      then takeWhile (\<lambda>c. c \<noteq> sep) s # py_split sep n (tl (dropWhile (\<lambda>c. c \<noteq> sep) s))
      else [s])"

text \<open>\<open>s.rstrip("\n")\<close>: every trailing line feed is removed.\<close>

definition rstrip_nl :: "string \<Rightarrow> string" where
  "rstrip_nl s = rev (dropWhile (\<lambda>c. c = NL) (rev s))"

text \<open>
  Iterating a text file opened with \<open>newline=""\<close>: a line ends after a line feed, after a
  carriage return followed by a line feed, or after a lone carriage return; the terminator
  stays on the line, and a last line without a terminator is still a line.
  \<open>cur\<close> is the line read so far.
\<close>

fun readlines :: "string \<Rightarrow> string \<Rightarrow> string list" where
  "readlines cur [] = (if cur = [] then [] else [cur])"
| "readlines cur [c] = [cur @ [c]]"
| "readlines cur (c # d # cs) =
     (if c = NL then (cur @ [c]) # readlines [] (d # cs)
      else if c = CR then
        (if d = NL then (cur @ [c, d]) # readlines [] cs
         else (cur @ [c]) # readlines [] (d # cs))
      else readlines (cur @ [c]) (d # cs))"

text \<open>\<open>str(n)\<close> for an integer: decimal digits, a minus sign when negative.\<close>

definition digit_char :: "nat \<Rightarrow> char" where
  "digit_char d = char_of (48 + d)"

function show_nat :: "nat \<Rightarrow> string" where
  "show_nat n = (if n < 10 then [digit_char n] else show_nat (n div 10) @ [digit_char (n mod 10)])"
  by pat_completeness auto
termination
  by (relation "measure (\<lambda>n. n)") auto

declare show_nat.simps [simp del]

definition show_int :: "int \<Rightarrow> string" where
  "show_int i = (if i < 0 then CHR ''-'' # show_nat (nat (- i)) else show_nat (nat i))"

text \<open>
  \<open>int(s)\<close> on a \<open>str\<close>: surrounding whitespace is dropped, one sign is allowed, then
  decimal digits, where single underscores may stand between digits. \<open>None\<close> is the
  \<open>ValueError\<close>. (The interpreter's configurable limit on the number of digits is not
  part of the model.)
\<close>

definition is_digit :: "char \<Rightarrow> bool" where
  "is_digit c \<longleftrightarrow> (let n = (of_char c :: nat) in 48 \<le> n \<and> n \<le> 57)"

definition digit_val :: "char \<Rightarrow> nat" where
  "digit_val c = of_char c - 48"

definition strip :: "string \<Rightarrow> string" where
  "strip s = rev (dropWhile is_space (rev (dropWhile is_space s)))"

text \<open>The digits of a literal with its underscores checked and removed.\<close>

fun digits_of :: "string \<Rightarrow> string option" where
  "digits_of [] = None"
| "digits_of [c] = (if is_digit c then Some [c] else None)"
| "digits_of (c # d # cs) =
     (if is_digit c then
        (if d = CHR ''_'' then map_option (\<lambda>r. c # r) (digits_of cs)
         else map_option (\<lambda>r. c # r) (digits_of (d # cs)))
      else None)"

definition nat_of_digits :: "string \<Rightarrow> nat" where
  "nat_of_digits ds = foldl (\<lambda>acc c. 10 * acc + digit_val c) 0 ds"

definition py_int :: "string \<Rightarrow> int option" where
  "py_int s =
     (case strip s of
        [] \<Rightarrow> None
      | c # cs \<Rightarrow>
          if c = CHR ''-'' then map_option (\<lambda>ds. - int (nat_of_digits ds)) (digits_of cs)
          else if c = CHR ''+'' then map_option (\<lambda>ds. int (nat_of_digits ds)) (digits_of cs)
          else map_option (\<lambda>ds. int (nat_of_digits ds)) (digits_of (c # cs)))"

datatype error = ValueError | IndexError

section \<open>storage.py: the append-only log\<close>

text \<open>
  \<open>_KEY_RE = re.compile(r"^\S+$")\<close> used with \<open>match\<close>: one or more non-whitespace
  characters up to the end of the string, where \<open>$\<close> also matches just before a line
  feed that ends the string.
\<close>

definition key_re_match :: "string \<Rightarrow> bool" where
  "key_re_match key \<longleftrightarrow>
     (let body = (if key \<noteq> [] \<and> last key = NL then butlast key else key)
      in body \<noteq> [] \<and> list_all (\<lambda>c. \<not> is_space c) body)"

text \<open>The fields of \<open>AppendOnlyLog\<close> that its methods read (path and encoding apart).\<close>

record log_cfg =
  max_key_len :: "nat option"
  max_value_len :: "nat option"
  strict :: bool

text \<open>\<open>AppendOnlyLog(db_path)\<close> as the engine constructs it: every default.\<close>

definition default_cfg :: log_cfg where
  "default_cfg = \<lparr>max_key_len = None, max_value_len = None, strict = False\<rparr>"

definition too_long :: "nat option \<Rightarrow> string \<Rightarrow> bool" where
  "too_long lim s = (case lim of None \<Rightarrow> False | Some m \<Rightarrow> length s > m)"

text \<open>
  \<open>_parse_and_validate\<close>: \<open>Some (op, key, arg)\<close> when the line is a record, \<open>None\<close> when
  \<open>ok\<close> is false (the reason text, used for diagnostics only, is left out).
\<close>

definition parse_and_validate :: "log_cfg \<Rightarrow> string \<Rightarrow> (string \<times> string \<times> string) option" where
  "parse_and_validate cfg line =
     (case py_split CHR '' '' 2 line of
        [] \<Rightarrow> None
      | op # args \<Rightarrow>
          if op = ''SET'' then
            (case args of
               [key, val] \<Rightarrow>
                 if \<not> key_re_match key then None
                 else if too_long (max_key_len cfg) key then None
                 else if too_long (max_value_len cfg) val then None
                 else Some (''SET'', key, val)
             | _ \<Rightarrow> None)
          else if op = ''DEL'' \<or> op = ''PERSIST'' then
            (case args of
               [key] \<Rightarrow>
                 if \<not> key_re_match key then None
                 else if too_long (max_key_len cfg) key then None
                 else Some (op, key, [])
             | _ \<Rightarrow> None)
          else if op = ''EXPIREAT'' then
            (case args of
               [key, ms_str] \<Rightarrow>
                 if \<not> key_re_match key then None
                 else (case py_int ms_str of
                         None \<Rightarrow> None
                       | Some _ \<Rightarrow> Some (''EXPIREAT'', key, ms_str))
             | _ \<Rightarrow> None)
          else None)"

text \<open>
  The loop of \<open>replay\<close> over the lines of the file. The result is the records yielded, in
  order, and the \<open>ValueError\<close> that strict mode raises at the first malformed line, if
  it does: the records before it have been yielded by then.
\<close>

fun replay_lines :: "log_cfg \<Rightarrow> string list \<Rightarrow> (string \<times> string \<times> string) list \<times> error option" where
  "replay_lines cfg [] = ([], None)"
| "replay_lines cfg (raw # rest) =
     (let line = rstrip_nl raw in
      if line = [] then replay_lines cfg rest
      else (case parse_and_validate cfg line of
              None \<Rightarrow> if strict cfg then ([], Some ValueError) else replay_lines cfg rest
            | Some r \<Rightarrow> (case replay_lines cfg rest of (rs, e) \<Rightarrow> (r # rs, e))))"

text \<open>
  \<open>replay\<close>, on the decoded text of the file (\<open>None\<close>: there is no file at the path).
  The look at the last character of the file only writes a warning to the diagnostic
  stream; it changes neither the position from which the lines are read nor the lines.
\<close>

definition replay :: "log_cfg \<Rightarrow> string option \<Rightarrow> (string \<times> string \<times> string) list \<times> error option" where
  "replay cfg file =
     (case file of
        None \<Rightarrow> ([], None)
      | Some text \<Rightarrow> replay_lines cfg (readlines [] text))"

text \<open>\<open>_append_line\<close>: the file is created when it is not there.\<close>

definition append_line :: "string option \<Rightarrow> string \<Rightarrow> string option" where
  "append_line file line = Some (case file of None \<Rightarrow> line | Some text \<Rightarrow> text @ line)"

definition validate_key_value_or_raise :: "log_cfg \<Rightarrow> string \<Rightarrow> string \<Rightarrow> error option" where
  "validate_key_value_or_raise cfg key val =
     (if \<not> key_re_match key then Some ValueError
      else if NL \<in> set val then Some ValueError
      else if too_long (max_key_len cfg) key then Some ValueError
      else if too_long (max_value_len cfg) val then Some ValueError
      else None)"

definition append_set :: "log_cfg \<Rightarrow> string option \<Rightarrow> string \<Rightarrow> string \<Rightarrow> error + string option" where
  "append_set cfg file key val =
     (case validate_key_value_or_raise cfg key val of
        Some e \<Rightarrow> Inl e
      | None \<Rightarrow> Inr (append_line file (''SET '' @ key @ '' '' @ val @ [NL])))"

definition append_del :: "string option \<Rightarrow> string \<Rightarrow> error + string option" where
  "append_del file key =
     (if \<not> key_re_match key then Inl ValueError
      else Inr (append_line file (''DEL '' @ key @ [NL])))"

definition append_expireat :: "string option \<Rightarrow> string \<Rightarrow> int \<Rightarrow> error + string option" where
  "append_expireat file key absolute_ms =
     (if \<not> key_re_match key then Inl ValueError
      else Inr (append_line file (''EXPIREAT '' @ key @ '' '' @ show_int absolute_ms @ [NL])))"

definition append_persist :: "string option \<Rightarrow> string \<Rightarrow> error + string option" where
  "append_persist file key =
     (if \<not> key_re_match key then Inl ValueError
      else Inr (append_line file (''PERSIST '' @ key @ [NL])))"

section \<open>The ordered index\<close>

text \<open>
  Modelled from the spec: the Ordered Index, class \<open>BPlusTreeIndex\<close> of the module
  \<open>index\<close>, which is not among the sources. The spec gives its observable contract
  only: an ordered mapping from key to latest value, where \<open>set\<close> replaces or inserts
  the entry, \<open>get\<close> returns the current value or absent, \<open>items\<close> runs through the
  (key, value) pairs in ascending key order, and nothing is ever deleted. The model is
  an association list kept in ascending key order.
\<close>

type_synonym ordered_index = "(string \<times> string) list"

definition index_new :: ordered_index where
  "index_new = []"

fun index_set :: "ordered_index \<Rightarrow> string \<Rightarrow> string \<Rightarrow> ordered_index" where
  "index_set [] key val = [(key, val)]"
| "index_set ((k, v) # rest) key val =
     (if key < k then (key, val) # (k, v) # rest
      else if key = k then (key, val) # rest
      else (k, v) # index_set rest key val)"

definition index_get :: "ordered_index \<Rightarrow> string \<Rightarrow> string option" where
  "index_get idx key = map_of idx key"

definition index_items :: "ordered_index \<Rightarrow> (string \<times> string) list" where
  "index_items idx = idx"

section \<open>engine.py: the engine\<close>

text \<open>
  The state of a \<open>KVEngine\<close>: \<open>_index\<close>, \<open>_tombstones\<close>, \<open>_ttl\<close>, and the text of the
  file behind \<open>_log\<close> (\<open>None\<close> while the file does not exist). Appending to the file is
  taken to succeed. Every method that reads the clock takes the reading, \<open>now\<close>, as an
  argument. A method returns its result (or the exception it raises) with the state
  it leaves behind.
\<close>

record kv_engine =
  e_index :: ordered_index
  e_tombstones :: "string set"
  e_ttl :: "string \<rightharpoonup> int"
  e_log :: "string option"

text \<open>One round of the loop of \<open>_load_from_log\<close>.\<close>

definition load_step :: "kv_engine \<Rightarrow> string \<times> string \<times> string \<Rightarrow> kv_engine" where
  "load_step s r =
     (case r of (op, key, arg) \<Rightarrow>
        if op = ''SET'' then
          s\<lparr>e_index := index_set (e_index s) key arg,
            e_tombstones := e_tombstones s - {key}\<rparr>
        else if op = ''DEL'' then
          s\<lparr>e_tombstones := insert key (e_tombstones s),
            e_ttl := (e_ttl s)(key := None)\<rparr>
        else if op = ''EXPIREAT'' then
          (case py_int arg of
             None \<Rightarrow> s
           | Some abs_ms \<Rightarrow> s\<lparr>e_ttl := (e_ttl s)(key \<mapsto> abs_ms)\<rparr>)
        else if op = ''PERSIST'' then
          s\<lparr>e_ttl := (e_ttl s)(key := None)\<rparr>
        else s)"

text \<open>\<open>_load_from_log\<close> on the records that \<open>replay\<close> yields.\<close>

definition load_records :: "kv_engine \<Rightarrow> (string \<times> string \<times> string) list \<Rightarrow> kv_engine" where
  "load_records s recs =
     foldl load_step (s\<lparr>e_index := index_new, e_tombstones := {}, e_ttl := Map.empty\<rparr>) recs"

definition load_from_log :: "kv_engine \<Rightarrow> kv_engine" where
  "load_from_log s = load_records s (fst (replay default_cfg (e_log s)))"

text \<open>\<open>KVEngine(db_path)\<close>, where \<open>file\<close> is what the path holds.\<close>

definition kv_init :: "string option \<Rightarrow> kv_engine" where
  "kv_init file =
     load_from_log \<lparr>e_index = index_new, e_tombstones = {}, e_ttl = Map.empty, e_log = file\<rparr>"

definition is_expired :: "kv_engine \<Rightarrow> string \<Rightarrow> int \<Rightarrow> bool \<times> kv_engine" where
  "is_expired s key now_ms =
     (case e_ttl s key of
        None \<Rightarrow> (False, s)
      | Some exp \<Rightarrow>
          if exp > now_ms then (False, s)
          else (True, s\<lparr>e_ttl := (e_ttl s)(key := None),
                         e_tombstones := insert key (e_tombstones s)\<rparr>))"

definition is_alive :: "kv_engine \<Rightarrow> string \<Rightarrow> int \<Rightarrow> bool \<times> kv_engine" where
  "is_alive s key now_ms =
     (if key \<in> e_tombstones s then (False, s)
      else (case index_get (e_index s) key of
              None \<Rightarrow> (False, s)
            | Some val \<Rightarrow>
                (case is_expired s key now_ms of
                   (True, s') \<Rightarrow> (False, s')
                 | (False, s') \<Rightarrow> (True, s'))))"

definition kv_set :: "kv_engine \<Rightarrow> string \<Rightarrow> string \<Rightarrow> (error + unit) \<times> kv_engine" where
  "kv_set s key val =
     (case append_set default_cfg (e_log s) key val of
        Inl e \<Rightarrow> (Inl e, s)
      | Inr file \<Rightarrow>
          (Inr (), s\<lparr>e_log := file,
                     e_index := index_set (e_index s) key val,
                     e_tombstones := e_tombstones s - {key}\<rparr>))"

definition kv_get :: "kv_engine \<Rightarrow> string \<Rightarrow> int \<Rightarrow> string option \<times> kv_engine" where
  "kv_get s key now =
     (case is_alive s key now of
        (False, s') \<Rightarrow> (None, s')
      | (True, s') \<Rightarrow> (index_get (e_index s') key, s'))"

definition kv_delete :: "kv_engine \<Rightarrow> string \<Rightarrow> int \<Rightarrow> (error + bool) \<times> kv_engine" where
  "kv_delete s key now =
     (case is_alive s key now of
        (False, s') \<Rightarrow> (Inr False, s'\<lparr>e_ttl := (e_ttl s')(key := None)\<rparr>)
      | (True, s') \<Rightarrow>
          (let s'' = s'\<lparr>e_tombstones := insert key (e_tombstones s'),
                        e_ttl := (e_ttl s')(key := None)\<rparr>
           in case append_del (e_log s'') key of
                Inl e \<Rightarrow> (Inl e, s'')
              | Inr file \<Rightarrow> (Inr True, s''\<lparr>e_log := file\<rparr>)))"

definition kv_exists :: "kv_engine \<Rightarrow> string \<Rightarrow> int \<Rightarrow> bool \<times> kv_engine" where
  "kv_exists s key now = is_alive s key now"

definition kv_expire :: "kv_engine \<Rightarrow> string \<Rightarrow> int \<Rightarrow> int \<Rightarrow> (error + bool) \<times> kv_engine" where
  "kv_expire s key ms now =
     (case is_alive s key now of
        (False, s') \<Rightarrow> (Inr False, s')
      | (True, s') \<Rightarrow>
          (let deadline = now + ms;
               s'' = s'\<lparr>e_ttl := (e_ttl s')(key \<mapsto> deadline)\<rparr>
           in case append_expireat (e_log s'') key deadline of
                Inl e \<Rightarrow> (Inl e, s'')
              | Inr file \<Rightarrow> (Inr True, s''\<lparr>e_log := file\<rparr>)))"

definition kv_ttl :: "kv_engine \<Rightarrow> string \<Rightarrow> int \<Rightarrow> int \<times> kv_engine" where
  "kv_ttl s key now =
     (case is_alive s key now of
        (False, s') \<Rightarrow> (- 2, s')
      | (True, s') \<Rightarrow>
          (case e_ttl s' key of
             None \<Rightarrow> (- 1, s')
           | Some exp \<Rightarrow>
               if exp \<le> now then
                 (- 2, s'\<lparr>e_ttl := (e_ttl s')(key := None),
                          e_tombstones := insert key (e_tombstones s')\<rparr>)
               else (exp - now, s')))"

definition kv_persist :: "kv_engine \<Rightarrow> string \<Rightarrow> int \<Rightarrow> (error + bool) \<times> kv_engine" where
  "kv_persist s key now =
     (case is_alive s key now of
        (False, s') \<Rightarrow> (Inr False, s')
      | (True, s') \<Rightarrow>
          (if key \<notin> dom (e_ttl s') then (Inr False, s')
           else (let s'' = s'\<lparr>e_ttl := (e_ttl s')(key := None)\<rparr>
                 in case append_persist (e_log s'') key of
                      Inl e \<Rightarrow> (Inl e, s'')
                    | Inr file \<Rightarrow> (Inr True, s''\<lparr>e_log := file\<rparr>))))"

text \<open>
  \<open>_UUID_RE\<close> used with \<open>match\<close>: groups of 8, 4, 4, 4 and 12 characters of
  \<open>0-9a-f\<close> with a hyphen between them (\<open>$\<close> as in \<open>_KEY_RE\<close>).
\<close>

definition is_hex :: "char \<Rightarrow> bool" where
  "is_hex c \<longleftrightarrow> is_digit c \<or> (let n = (of_char c :: nat) in 97 \<le> n \<and> n \<le> 102)"

definition uuid_re_match :: "string \<Rightarrow> bool" where
  "uuid_re_match key \<longleftrightarrow>
     (let body = (if key \<noteq> [] \<and> last key = NL then butlast key else key)
      in length body = 36
         \<and> list_all is_hex (take 8 body) \<and> take 1 (drop 8 body) = ''-''
         \<and> list_all is_hex (take 4 (drop 9 body)) \<and> take 1 (drop 13 body) = ''-''
         \<and> list_all is_hex (take 4 (drop 14 body)) \<and> take 1 (drop 18 body) = ''-''
         \<and> list_all is_hex (take 4 (drop 19 body)) \<and> take 1 (drop 23 body) = ''-''
         \<and> list_all is_hex (drop 24 body))"

text \<open>
  The loop of \<open>range_keys\<close> over the items of the index: the keys yielded, in the order
  they are yielded, and the state after the last liveness check.
\<close>

fun range_loop ::
  "kv_engine \<Rightarrow> string \<Rightarrow> string \<Rightarrow> int \<Rightarrow> (string \<times> string) list \<Rightarrow> string list \<times> kv_engine" where
  "range_loop s start endk now [] = ([], s)"
| "range_loop s start endk now ((k, v) # items) =
     (if CHR ''-'' \<in> set k \<and> length k > 16 then range_loop s start endk now items
      else if start \<noteq> [] \<and> k < start then range_loop s start endk now items
      else if endk \<noteq> [] \<and> k > endk then range_loop s start endk now items
      else (case is_alive s k now of
              (False, s') \<Rightarrow> range_loop s' start endk now items
            | (True, s') \<Rightarrow>
                (case range_loop s' start endk now items of
                   (ks, s'') \<Rightarrow> (k # ks, s''))))"

definition range_keys :: "kv_engine \<Rightarrow> string \<Rightarrow> string \<Rightarrow> int \<Rightarrow> string list \<times> kv_engine" where
  "range_keys s start endk now = range_loop s start endk now (index_items (e_index s))"

section \<open>main.py: the transaction overlay\<close>

definition MSG_OK :: string where
  "MSG_OK = ''OK''"

definition ERR_USAGE_SET :: string where
  "ERR_USAGE_SET = ''ERR usage: SET <key> <value>''"

definition ERR_USAGE_DEL :: string where
  "ERR_USAGE_DEL = ''ERR usage: DEL <key>''"

definition ERR_USAGE_EXPIRE :: string where
  "ERR_USAGE_EXPIRE = ''ERR usage: EXPIRE <key> <milliseconds>''"

definition ERR_USAGE_PERSIST :: string where
  "ERR_USAGE_PERSIST = ''ERR usage: PERSIST <key>''"

definition ERR_TX_NESTED :: string where
  "ERR_TX_NESTED = ''ERR transaction already in progress''"

definition ERR_NO_TX :: string where
  "ERR_NO_TX = ''ERR no transaction''"

definition ERR_VALUE_SINGLELINE :: string where
  "ERR_VALUE_SINGLELINE = ''ERR value must be a single line''"

text \<open>
  The module's globals \<open>in_tx\<close>, \<open>tx_buffer\<close> and \<open>tx_ops\<close>, the engine \<open>kv\<close> that every
  handler is given, and the lines written to standard output so far. In \<open>tx_buffer\<close> a
  key bound to \<open>None\<close> is deleted in the transaction.
\<close>

record session =
  in_tx :: bool
  tx_buffer :: "string \<rightharpoonup> string option"
  tx_ops :: "(string \<times> string list) list"
  kv :: kv_engine
  out :: "string list"

definition print :: "session \<Rightarrow> string \<Rightarrow> session" where
  "print st line = st\<lparr>out := out st @ [line]\<rparr>"

text \<open>\<open>" ".join(xs)\<close>\<close>

fun join_sp :: "string list \<Rightarrow> string" where
  "join_sp [] = []"
| "join_sp [x] = x"
| "join_sp (x # y # ys) = x @ '' '' @ join_sp (y # ys)"

definition tx_get_view :: "session \<Rightarrow> string \<Rightarrow> int \<Rightarrow> string option \<times> session" where
  "tx_get_view st key now =
     (case tx_buffer st key of
        Some b \<Rightarrow> (b, st)
      | None \<Rightarrow> (case kv_get (kv st) key now of (r, kv') \<Rightarrow> (r, st\<lparr>kv := kv'\<rparr>)))"

definition tx_exists_view :: "session \<Rightarrow> string \<Rightarrow> int \<Rightarrow> bool \<times> session" where
  "tx_exists_view st key now =
     (case tx_get_view st key now of (r, st') \<Rightarrow> (r \<noteq> None, st'))"

text \<open>
  A handler returns the exception that leaves it, if one does, and the session. (The
  main loop answers an exception with \<open>ERR internal\<close> and goes on with the session as
  the handler left it.)
\<close>

definition handle_set :: "string list \<Rightarrow> session \<Rightarrow> error option \<times> session" where
  "handle_set args st =
     (if length args < 2 then (None, print st ERR_USAGE_SET)
      else
        (let key = hd args; val = join_sp (tl args) in
         if NL \<in> set val \<or> CR \<in> set val then (None, print st ERR_VALUE_SINGLELINE)
         else if in_tx st then
           (None, print (st\<lparr>tx_buffer := (tx_buffer st)(key \<mapsto> Some val),
                            tx_ops := tx_ops st @ [(''SET'', [key, val])]\<rparr>) MSG_OK)
         else
           (case kv_set (kv st) key val of
              (Inl e, kv') \<Rightarrow> (Some e, st\<lparr>kv := kv'\<rparr>)
            | (Inr _, kv') \<Rightarrow> (None, print (st\<lparr>kv := kv'\<rparr>) MSG_OK))))"

definition handle_del :: "string list \<Rightarrow> int \<Rightarrow> session \<Rightarrow> error option \<times> session" where
  "handle_del args now st =
     (if length args \<noteq> 1 then (None, print st ERR_USAGE_DEL)
      else
        (let key = hd args in
         if in_tx st then
           (case tx_exists_view st key now of
              (True, st') \<Rightarrow>
                (None, print (st'\<lparr>tx_buffer := (tx_buffer st')(key \<mapsto> None),
                                  tx_ops := tx_ops st' @ [(''DEL'', [key])]\<rparr>) ''1'')
            | (False, st') \<Rightarrow> (None, print st' ''0''))
         else
           (case kv_delete (kv st) key now of
              (Inl e, kv') \<Rightarrow> (Some e, st\<lparr>kv := kv'\<rparr>)
            | (Inr removed, kv') \<Rightarrow>
                (None, print (st\<lparr>kv := kv'\<rparr>) (if removed then ''1'' else ''0'')))))"

definition handle_expire :: "string list \<Rightarrow> int \<Rightarrow> session \<Rightarrow> error option \<times> session" where
  "handle_expire args now st =
     (if length args \<noteq> 2 then (None, print st ERR_USAGE_EXPIRE)
      else
        (let key = hd args in
         case py_int (args ! 1) of
           None \<Rightarrow> (None, print st ERR_USAGE_EXPIRE)
         | Some ms \<Rightarrow>
             if in_tx st then
               (case tx_exists_view st key now of
                  (False, st') \<Rightarrow> (None, print st' ''0'')
                | (True, st') \<Rightarrow>
                    (None, print (st'\<lparr>tx_ops := tx_ops st' @ [(''EXPIRE'', [key, show_int ms])]\<rparr>) ''1''))
             else
               (case kv_expire (kv st) key ms now of
                  (Inl e, kv') \<Rightarrow> (Some e, st\<lparr>kv := kv'\<rparr>)
                | (Inr ok, kv') \<Rightarrow>
                    (None, print (st\<lparr>kv := kv'\<rparr>) (if ok then ''1'' else ''0'')))))"

definition handle_persist :: "string list \<Rightarrow> int \<Rightarrow> session \<Rightarrow> error option \<times> session" where
  "handle_persist args now st =
     (if length args \<noteq> 1 then (None, print st ERR_USAGE_PERSIST)
      else
        (let key = hd args in
         if in_tx st then
           (case tx_exists_view st key now of
              (False, st') \<Rightarrow> (None, print st' ''0'')
            | (True, st') \<Rightarrow>
                (None, print (st'\<lparr>tx_ops := tx_ops st' @ [(''PERSIST'', [key])]\<rparr>) ''1''))
         else
           (case kv_persist (kv st) key now of
              (Inl e, kv') \<Rightarrow> (Some e, st\<lparr>kv := kv'\<rparr>)
            | (Inr ok, kv') \<Rightarrow>
                (None, print (st\<lparr>kv := kv'\<rparr>) (if ok then ''1'' else ''0'')))))"

definition handle_begin :: "string list \<Rightarrow> session \<Rightarrow> error option \<times> session" where
  "handle_begin args st =
     (if in_tx st then (None, print st ERR_TX_NESTED)
      else (None, print (st\<lparr>in_tx := True, tx_buffer := Map.empty, tx_ops := []\<rparr>) MSG_OK))"




definition handle_abort :: "string list \<Rightarrow> session \<Rightarrow> error option \<times> session" where
  "handle_abort args st =
     (if \<not> in_tx st then (None, print st ERR_NO_TX)
      else (None, print (st\<lparr>in_tx := False, tx_buffer := Map.empty, tx_ops := []\<rparr>) MSG_OK))"

text \<open>The session when \<open>main\<close> enters its loop, on an engine \<open>e\<close>.\<close>

definition session_init :: "kv_engine \<Rightarrow> session" where
  "session_init e = \<lparr>in_tx = False, tx_buffer = Map.empty, tx_ops = [], kv = e, out = []\<rparr>"

section \<open>The vocabulary of the properties\<close>

text \<open>
  The liveness of the data model: a key is live iff it is absent from the tombstone set,
  the index holds an entry for it, and its TTL entry, if it has one, is strictly greater
  than the current time.
\<close>

definition live :: "kv_engine \<Rightarrow> string \<Rightarrow> int \<Rightarrow> bool" where
  "live s key now \<longleftrightarrow>
     key \<notin> e_tombstones s \<and> index_get (e_index s) key \<noteq> None
     \<and> (case e_ttl s key of None \<Rightarrow> True | Some exp \<Rightarrow> now < exp)"

text \<open>Lazy expiration: the key's TTL entry is removed and the key becomes a tombstone.\<close>

definition lazy_expire :: "kv_engine \<Rightarrow> string \<Rightarrow> kv_engine" where
  "lazy_expire s key =
     s\<lparr>e_ttl := (e_ttl s)(key := None), e_tombstones := insert key (e_tombstones s)\<rparr>"




text \<open>
  The triple is consistent: no key is both a tombstone and in the TTL table, and every
  key of the TTL table has an entry in the index.
\<close>

definition triple_ok :: "kv_engine \<Rightarrow> bool" where
  "triple_ok s \<longleftrightarrow>
     e_tombstones s \<inter> dom (e_ttl s) = {} \<and> dom (e_ttl s) \<subseteq> dom (index_get (e_index s))"

text \<open>
  The engine states reached from the empty engine (no log file) by the public
  operations, each at any reading of the clock, whether an operation returns or raises.
\<close>

inductive reachable :: "kv_engine \<Rightarrow> bool" where
  r_init: "reachable (kv_init None)"
| r_set: "reachable s \<Longrightarrow> reachable (snd (kv_set s key val))"
| r_get: "reachable s \<Longrightarrow> reachable (snd (kv_get s key now))"
| r_delete: "reachable s \<Longrightarrow> reachable (snd (kv_delete s key now))"
| r_exists: "reachable s \<Longrightarrow> reachable (snd (kv_exists s key now))"
| r_expire: "reachable s \<Longrightarrow> reachable (snd (kv_expire s key ms now))"
| r_ttl: "reachable s \<Longrightarrow> reachable (snd (kv_ttl s key now))"
| r_persist: "reachable s \<Longrightarrow> reachable (snd (kv_persist s key now))"
| r_range: "reachable s \<Longrightarrow> reachable (snd (range_keys s start endk now))"






text \<open>
  Two engines for the examples: one on which \<open>a\<close> was set to \<open>1\<close> and nothing else
  done, and that one after \<open>expire("a", ms)\<close> at time \<open>t\<close>.
\<close>

definition kv_single :: kv_engine where
  "kv_single = snd (kv_set (kv_init None) ''a'' ''1'')"

definition kv_deadline :: "int \<Rightarrow> int \<Rightarrow> kv_engine" where
  "kv_deadline ms t = snd (kv_expire kv_single ''a'' ms t)"

text \<open>
  The keys that the loop of \<open>range_keys\<close> lets through before it asks whether they are
  live: not hyphenated with more than 16 characters, and within the bounds, where an
  empty bound is no bound.
\<close>

definition range_visible :: "string \<Rightarrow> string \<Rightarrow> string \<Rightarrow> bool" where
  "range_visible start endk k \<longleftrightarrow>
     \<not> (CHR ''-'' \<in> set k \<and> length k > 16)
     \<and> \<not> (start \<noteq> [] \<and> k < start) \<and> \<not> (endk \<noteq> [] \<and> k > endk)"


text \<open>
  Two sessions for the examples, each on an empty engine and inside a transaction:
  one after \<open>SET a 1\<close>, \<open>EXPIRE a 50\<close> and \<open>PERSIST a\<close>, the other after \<open>SET c 1\<close>,
  \<open>SET "a b" v\<close> (a key with a space in it) and \<open>SET d 2\<close>.
\<close>

definition tx_example :: session where
  "tx_example =
     snd (handle_persist [''a''] 1002
       (snd (handle_expire [''a'', ''50''] 1001
         (snd (handle_set [''a'', ''1'']
           (snd (handle_begin [] (session_init (kv_init None)))))))))"


section \<open>The liveness check\<close>

lemma is_expired_cases:
  "is_expired s key now =
     (case e_ttl s key of
        None \<Rightarrow> (False, s)
      | Some exp \<Rightarrow> if now < exp then (False, s) else (True, lazy_expire s key))"
  by (simp add: is_expired_def lazy_expire_def split: option.splits)

lemma is_alive_cases:
  "is_alive s key now =
     (if key \<in> e_tombstones s \<or> index_get (e_index s) key = None then (False, s)
      else (case e_ttl s key of
              None \<Rightarrow> (True, s)
            | Some exp \<Rightarrow> if now < exp then (True, s) else (False, lazy_expire s key)))"
  by (auto simp: is_alive_def is_expired_cases split: option.splits)

text \<open>
  Claim C1. At every state, key and time, \<open>_is_alive\<close> reports the key live iff the key
  is no tombstone, the index holds an entry for it and its TTL entry, if any, is
  strictly greater than the current time. When the check comes to a TTL entry that is
  at most the current time (the key being no tombstone and in the index), it reports
  the key dead and leaves the state with that TTL entry removed and the key added to
  the tombstone set; in every other case it leaves the state as it was. \<open>exists\<close> is the
  check itself, and \<open>get\<close> returns a value exactly for the live keys.
\<close>

theorem is_alive_iff_live:
  "fst (is_alive s key now) = live s key now
   \<and> (key \<notin> e_tombstones s \<and> index_get (e_index s) key \<noteq> None
        \<and> (\<exists>exp. e_ttl s key = Some exp \<and> exp \<le> now)
      \<longrightarrow> is_alive s key now =
            (False, s\<lparr>e_ttl := (e_ttl s)(key := None),
                      e_tombstones := insert key (e_tombstones s)\<rparr>))
   \<and> (\<not> (key \<notin> e_tombstones s \<and> index_get (e_index s) key \<noteq> None
           \<and> (\<exists>exp. e_ttl s key = Some exp \<and> exp \<le> now))
      \<longrightarrow> snd (is_alive s key now) = s)
   \<and> kv_exists s key now = is_alive s key now
   \<and> (fst (kv_get s key now) \<noteq> None) = live s key now"
  by (auto simp: is_alive_cases live_def lazy_expire_def kv_exists_def kv_get_def
           split: option.splits)

theorem is_alive_iff_live_witness:
  "''a'' \<notin> e_tombstones (kv_deadline (- 5) 1000)
   \<and> index_get (e_index (kv_deadline (- 5) 1000)) ''a'' \<noteq> None
   \<and> e_ttl (kv_deadline (- 5) 1000) ''a'' = Some 995
   \<and> is_alive (kv_deadline (- 5) 1000) ''a'' 1000 =
       (False, (kv_deadline (- 5) 1000)\<lparr>e_ttl := (e_ttl (kv_deadline (- 5) 1000))(''a'' := None),
                 e_tombstones := insert ''a'' (e_tombstones (kv_deadline (- 5) 1000))\<rparr>)
   \<and> index_get (e_index (kv_deadline (- 5) 1000)) ''b'' = None
   \<and> snd (is_alive (kv_deadline (- 5) 1000) ''b'' 1000) = kv_deadline (- 5) 1000"
proof -
  have a: "''a'' \<notin> e_tombstones (kv_deadline (- 5) 1000)"
    "index_get (e_index (kv_deadline (- 5) 1000)) ''a'' \<noteq> None"
    "e_ttl (kv_deadline (- 5) 1000) ''a'' = Some 995"
    by code_simp+
  have b: "index_get (e_index (kv_deadline (- 5) 1000)) ''b'' = None"
    by code_simp
  from a b is_alive_iff_live [of "kv_deadline (- 5) 1000" "''a''" 1000]
    is_alive_iff_live [of "kv_deadline (- 5) 1000" "''b''" 1000]
  show ?thesis by simp
qed

section \<open>Recovery\<close>

lemma index_get_set:
  "index_get (index_set idx key val) k = (if k = key then Some val else index_get idx k)"
  by (induction idx key val rule: index_set.induct) (auto simp: index_get_def)






section \<open>The engine's operations\<close>

lemma append_set_ok:
  "key_re_match key \<Longrightarrow> NL \<notin> set val \<Longrightarrow>
   append_set default_cfg file key val = Inr (append_line file (''SET '' @ key @ '' '' @ val @ [NL]))"
  by (simp add: append_set_def validate_key_value_or_raise_def default_cfg_def too_long_def)

lemma kv_set_ok:
  "key_re_match key \<Longrightarrow> NL \<notin> set val \<Longrightarrow>
   kv_set s key val =
     (Inr (), s\<lparr>e_log := append_line (e_log s) (''SET '' @ key @ '' '' @ val @ [NL]),
                e_index := index_set (e_index s) key val,
                e_tombstones := e_tombstones s - {key}\<rparr>)"
  by (simp add: kv_set_def append_set_ok)

lemma kv_set_ttl: "e_ttl (snd (kv_set s key val)) = e_ttl s"
  by (simp add: kv_set_def split: sum.splits)

lemma kv_delete_ttl: "e_ttl (snd (kv_delete s key now)) key = None"
  by (auto simp: kv_delete_def is_alive_cases lazy_expire_def Let_def split: option.splits sum.splits)

lemma key_a_ok: "key_re_match ''a''"
  by code_simp

lemma nl_not_in: "NL \<notin> set ''1''" "NL \<notin> set ''2''" "NL \<notin> set ''3''"
  by code_simp+

text \<open>
  Claim C7. \<open>set\<close> never changes the TTL table, and a \<open>set\<close> that the log accepts (the
  key matches \<open>_KEY_RE\<close>, the value has no line feed) removes the key from the tombstone
  set and stores the value. From any state and at any times, after
  \<open>set("a","1"); set("a","2"); delete("a"); set("a","3")\<close> the key \<open>a\<close> is live, its
  value is \<open>3\<close>, and it has no TTL: \<open>delete\<close> leaves the key without a TTL entry
  whether it finds the key live or not, and the last \<open>set\<close> does not bring one back.
\<close>

theorem set_preserves_ttl:
  "e_ttl (snd (kv_set s key val)) = e_ttl s
   \<and> (key_re_match key \<and> NL \<notin> set val \<longrightarrow>
        fst (kv_set s key val) = Inr ()
        \<and> e_tombstones (snd (kv_set s key val)) = e_tombstones s - {key}
        \<and> index_get (e_index (snd (kv_set s key val))) key = Some val)
   \<and> (s1 = snd (kv_set s ''a'' ''1'') \<and> s2 = snd (kv_set s1 ''a'' ''2'')
        \<and> s3 = snd (kv_delete s2 ''a'' t1) \<and> s4 = snd (kv_set s3 ''a'' ''3'') \<longrightarrow>
        live s4 ''a'' t2 \<and> fst (kv_get s4 ''a'' t2) = Some ''3''
        \<and> e_ttl s4 ''a'' = None \<and> fst (kv_ttl s4 ''a'' t2) = - 1)"
proof -
  have gen: "key_re_match key \<and> NL \<notin> set val \<longrightarrow>
        fst (kv_set s key val) = Inr ()
        \<and> e_tombstones (snd (kv_set s key val)) = e_tombstones s - {key}
        \<and> index_get (e_index (snd (kv_set s key val))) key = Some val"
    by (simp add: kv_set_ok index_get_set)
  have scen: "live s4 ''a'' t2 \<and> fst (kv_get s4 ''a'' t2) = Some ''3''
        \<and> e_ttl s4 ''a'' = None \<and> fst (kv_ttl s4 ''a'' t2) = - 1"
    if h: "s1 = snd (kv_set s ''a'' ''1'')" "s2 = snd (kv_set s1 ''a'' ''2'')"
      "s3 = snd (kv_delete s2 ''a'' t1)" "s4 = snd (kv_set s3 ''a'' ''3'')"
  proof -
    have t3: "e_ttl s3 ''a'' = None"
      unfolding h(3) by (rule kv_delete_ttl)
    have t4: "e_ttl s4 ''a'' = None"
      unfolding h(4) using t3 by (simp add: kv_set_ttl)
    have i4: "index_get (e_index s4) ''a'' = Some ''3''" and m4: "''a'' \<notin> e_tombstones s4"
      by (simp_all add: h(4) kv_set_ok [OF key_a_ok nl_not_in(3)] index_get_set)
    have l4: "live s4 ''a'' t2"
      using t4 i4 m4 by (simp add: live_def)
    have "is_alive s4 ''a'' t2 = (True, s4)"
      using t4 i4 m4 by (simp add: is_alive_cases)
    then show ?thesis
      using t4 i4 l4 by (simp add: kv_get_def kv_ttl_def)
  qed
  from gen scen show ?thesis
    by (simp add: kv_set_ttl)
qed

theorem set_preserves_ttl_witness:
  "key_re_match ''a'' \<and> NL \<notin> set ''1''
   \<and> e_ttl (kv_deadline (- 5) 1000) ''a'' = Some 995
   \<and> e_ttl (snd (kv_set (kv_deadline (- 5) 1000) ''a'' ''1'')) = e_ttl (kv_deadline (- 5) 1000)
   \<and> fst (kv_set (kv_deadline (- 5) 1000) ''a'' ''1'') = Inr ()
   \<and> fst (kv_get
         (snd (kv_set (snd (kv_delete (snd (kv_set (snd (kv_set (kv_deadline (- 5) 1000)
            ''a'' ''1'')) ''a'' ''2'')) ''a'' 2000)) ''a'' ''3'')) ''a'' 3000) = Some ''3''
   \<and> e_ttl
         (snd (kv_set (snd (kv_delete (snd (kv_set (snd (kv_set (kv_deadline (- 5) 1000)
            ''a'' ''1'')) ''a'' ''2'')) ''a'' 2000)) ''a'' ''3'')) ''a'' = None"
proof -
  have "e_ttl (kv_deadline (- 5) 1000) ''a'' = Some 995"
    by code_simp
  with key_a_ok nl_not_in(1)
    set_preserves_ttl [of "kv_deadline (- 5) 1000" "''a''" "''1''"
      "snd (kv_set (kv_deadline (- 5) 1000) ''a'' ''1'')"
      "snd (kv_set (snd (kv_set (kv_deadline (- 5) 1000) ''a'' ''1'')) ''a'' ''2'')"
      "snd (kv_delete (snd (kv_set (snd (kv_set (kv_deadline (- 5) 1000)
         ''a'' ''1'')) ''a'' ''2'')) ''a'' 2000)"
      2000
      "snd (kv_set (snd (kv_delete (snd (kv_set (snd (kv_set (kv_deadline (- 5) 1000)
         ''a'' ''1'')) ''a'' ''2'')) ''a'' 2000)) ''a'' ''3'')"
      3000]
  show ?thesis by simp
qed


lemma kv_ttl_cases:
  "fst (kv_ttl s key now) =
     (if live s key now then (case e_ttl s key of None \<Rightarrow> - 1 | Some exp \<Rightarrow> exp - now) else - 2)"
  by (auto simp: kv_ttl_def is_alive_cases live_def split: option.splits)

text \<open>
  Claim C8. \<open>ttl\<close> returns the remaining milliseconds, a strictly positive number, for
  a live key with a TTL entry, \<open>-1\<close> for a live key without one, and \<open>-2\<close> for a key that
  is not live. After \<open>set("a","1")\<close> on a state where \<open>a\<close> has no elapsed TTL,
  \<open>expire("a", -5)\<close> at time \<open>t1\<close> succeeds and stores the deadline \<open>t1 - 5\<close>; at any
  time \<open>t2\<close> not before that deadline (any time from \<open>t1\<close> on, when the clock does not
  run backwards) \<open>get\<close> returns absent and \<open>ttl\<close> returns \<open>-2\<close>, and \<open>ttl\<close> after that
  \<open>get\<close> returns \<open>-2\<close> at every time.
\<close>

theorem ttl_sentinels:
  "(live s key now \<and> e_ttl s key = Some exp \<longrightarrow>
      fst (kv_ttl s key now) = exp - now \<and> 0 < fst (kv_ttl s key now))
   \<and> (live s key now \<and> e_ttl s key = None \<longrightarrow> fst (kv_ttl s key now) = - 1)
   \<and> (\<not> live s key now \<longrightarrow> fst (kv_ttl s key now) = - 2)
   \<and> ((case e_ttl s ''a'' of None \<Rightarrow> True | Some e \<Rightarrow> t1 < e) \<and> t1 - 5 \<le> t2
        \<and> s1 = snd (kv_set s ''a'' ''1'') \<and> s2 = snd (kv_expire s1 ''a'' (- 5) t1)
        \<and> s3 = snd (kv_get s2 ''a'' t2) \<longrightarrow>
      fst (kv_expire s1 ''a'' (- 5) t1) = Inr True \<and> e_ttl s2 ''a'' = Some (t1 - 5)
      \<and> fst (kv_get s2 ''a'' t2) = None \<and> fst (kv_ttl s2 ''a'' t2) = - 2
      \<and> fst (kv_ttl s3 ''a'' t3) = - 2)"
proof -
  have scen: "fst (kv_expire s1 ''a'' (- 5) t1) = Inr True \<and> e_ttl s2 ''a'' = Some (t1 - 5)
      \<and> fst (kv_get s2 ''a'' t2) = None \<and> fst (kv_ttl s2 ''a'' t2) = - 2
      \<and> fst (kv_ttl s3 ''a'' t3) = - 2"
    if h: "case e_ttl s ''a'' of None \<Rightarrow> True | Some e \<Rightarrow> t1 < e" "t1 - 5 \<le> t2"
      "s1 = snd (kv_set s ''a'' ''1'')" "s2 = snd (kv_expire s1 ''a'' (- 5) t1)"
      "s3 = snd (kv_get s2 ''a'' t2)"
  proof -
    have s1: "s1 = s\<lparr>e_log := append_line (e_log s) (''SET a 1'' @ [NL]),
                e_index := index_set (e_index s) ''a'' ''1'',
                e_tombstones := e_tombstones s - {''a''}\<rparr>"
      using kv_set_ok [OF key_a_ok nl_not_in(1), of s] by (simp add: h(3))
    have a1: "is_alive s1 ''a'' t1 = (True, s1)"
      using h(1) by (auto simp: s1 is_alive_cases index_get_set split: option.splits)
    have e: "kv_expire s1 ''a'' (- 5) t1 =
        (Inr True, s1\<lparr>e_ttl := (e_ttl s1)(''a'' \<mapsto> t1 - 5),
           e_log := append_line (e_log s1) (''EXPIREAT a '' @ show_int (t1 - 5) @ [NL])\<rparr>)"
      by (simp add: kv_expire_def a1 append_expireat_def key_a_ok Let_def)
    have f1: "''a'' \<notin> e_tombstones s1" "index_get (e_index s1) ''a'' \<noteq> None"
      by (simp_all add: s1 index_get_set)
    have s2: "e_ttl s2 ''a'' = Some (t1 - 5)" "''a'' \<notin> e_tombstones s2"
      "index_get (e_index s2) ''a'' \<noteq> None"
      using f1 by (simp_all add: h(4) e)
    have a2: "is_alive s2 ''a'' t2 = (False, lazy_expire s2 ''a'')"
      using s2 h(2) by (auto simp: is_alive_cases)
    have "\<not> live s3 ''a'' t3"
      by (simp add: h(5) kv_get_def a2 live_def lazy_expire_def)
    moreover have "\<not> live s2 ''a'' t2"
      using s2 h(2) by (simp add: live_def)
    ultimately show ?thesis
      using e s2 a2 by (simp add: kv_ttl_cases kv_get_def)
  qed
  have "live s key now \<and> e_ttl s key = Some exp \<longrightarrow> 0 < exp - now"
    by (auto simp: live_def)
  with scen show ?thesis
    by (simp add: kv_ttl_cases)
qed


theorem ttl_sentinels_witness:
  "live (kv_deadline 50 1000) ''a'' 1010 \<and> e_ttl (kv_deadline 50 1000) ''a'' = Some 1050
   \<and> fst (kv_ttl (kv_deadline 50 1000) ''a'' 1010) = 40
   \<and> live kv_single ''a'' 1010 \<and> e_ttl kv_single ''a'' = None
   \<and> fst (kv_ttl kv_single ''a'' 1010) = - 1
   \<and> \<not> live kv_single ''b'' 1010 \<and> fst (kv_ttl kv_single ''b'' 1010) = - 2
   \<and> e_ttl (kv_init None) ''a'' = None
   \<and> fst (kv_expire (snd (kv_set (kv_init None) ''a'' ''1'')) ''a'' (- 5) 1000) = Inr True
   \<and> fst (kv_get (snd (kv_expire (snd (kv_set (kv_init None) ''a'' ''1'')) ''a'' (- 5) 1000))
         ''a'' 1000) = None
   \<and> fst (kv_ttl (snd (kv_get (snd (kv_expire (snd (kv_set (kv_init None) ''a'' ''1''))
         ''a'' (- 5) 1000)) ''a'' 1000)) ''a'' 1001) = - 2"
proof -
  have a: "live (kv_deadline 50 1000) ''a'' 1010" "e_ttl (kv_deadline 50 1000) ''a'' = Some 1050"
    by code_simp+
  have b: "live kv_single ''a'' 1010" "e_ttl kv_single ''a'' = None"
    by code_simp+
  have c: "\<not> live kv_single ''b'' 1010"
    by code_simp
  have d: "e_ttl (kv_init None) ''a'' = None"
    by code_simp
  from a b c d
    ttl_sentinels [of "kv_deadline 50 1000" "''a''" 1010 1050]
    ttl_sentinels [of kv_single "''a''" 1010]
    ttl_sentinels [of kv_single "''b''" 1010]
    ttl_sentinels [of "kv_init None" "''a''" 0 0 1000 1000
      "snd (kv_set (kv_init None) ''a'' ''1'')"
      "snd (kv_expire (snd (kv_set (kv_init None) ''a'' ''1'')) ''a'' (- 5) 1000)"
      "snd (kv_get (snd (kv_expire (snd (kv_set (kv_init None) ''a'' ''1''))
         ''a'' (- 5) 1000)) ''a'' 1000)" 1001]
  show ?thesis by simp
qed


lemma pop_absent: "m k = None \<Longrightarrow> m(k := None) = m"
  by (simp add: fun_upd_idem)

text \<open>
  Claim C9, amended. For a key that is not live, \<open>delete\<close> returns \<open>False\<close>, appends
  nothing to the log, and leaves the index as it was and the tombstone set as the
  liveness check left it; the TTL table is what the liveness check left, with the
  key's own entry removed. Where a key that is a tombstone or not in the index has no
  TTL entry, that is the state the liveness check left. For a live key that matches
  \<open>_KEY_RE\<close>, \<open>delete\<close> returns \<open>True\<close>, adds the tombstone, removes the TTL entry and
  appends the \<open>DEL\<close> record.
\<close>

theorem delete_not_live:
  "(\<not> live s key now \<longrightarrow>
      fst (kv_delete s key now) = Inr False
      \<and> e_log (snd (kv_delete s key now)) = e_log s
      \<and> e_index (snd (kv_delete s key now)) = e_index s
      \<and> e_tombstones (snd (kv_delete s key now)) = e_tombstones (snd (is_alive s key now))
      \<and> e_ttl (snd (kv_delete s key now)) = (e_ttl (snd (is_alive s key now)))(key := None)
      \<and> ((key \<in> e_tombstones s \<or> index_get (e_index s) key = None \<longrightarrow> e_ttl s key = None)
          \<longrightarrow> snd (kv_delete s key now) = snd (is_alive s key now)))
   \<and> (live s key now \<and> key_re_match key \<longrightarrow>
        kv_delete s key now =
          (Inr True, s\<lparr>e_tombstones := insert key (e_tombstones s),
                        e_ttl := (e_ttl s)(key := None),
                        e_log := append_line (e_log s) (''DEL '' @ key @ [NL])\<rparr>))"
  by (auto simp: kv_delete_def is_alive_cases live_def lazy_expire_def append_del_def Let_def
           pop_absent split: option.splits)


theorem delete_not_live_witness:
  "\<not> live (kv_deadline (- 5) 1000) ''a'' 2000
   \<and> fst (kv_delete (kv_deadline (- 5) 1000) ''a'' 2000) = Inr False
   \<and> e_log (snd (kv_delete (kv_deadline (- 5) 1000) ''a'' 2000)) = e_log (kv_deadline (- 5) 1000)
   \<and> ''a'' \<notin> e_tombstones (kv_deadline (- 5) 1000)
   \<and> index_get (e_index (kv_deadline (- 5) 1000)) ''a'' \<noteq> None
   \<and> snd (kv_delete (kv_deadline (- 5) 1000) ''a'' 2000)
       = snd (is_alive (kv_deadline (- 5) 1000) ''a'' 2000)
   \<and> live kv_single ''a'' 2000 \<and> key_re_match ''a''
   \<and> kv_delete kv_single ''a'' 2000 =
       (Inr True, kv_single\<lparr>e_tombstones := insert ''a'' (e_tombstones kv_single),
                    e_ttl := (e_ttl kv_single)(''a'' := None),
                    e_log := append_line (e_log kv_single) (''DEL '' @ ''a'' @ [NL])\<rparr>)"
proof -
  have a: "\<not> live (kv_deadline (- 5) 1000) ''a'' 2000"
    "''a'' \<notin> e_tombstones (kv_deadline (- 5) 1000)"
    "index_get (e_index (kv_deadline (- 5) 1000)) ''a'' \<noteq> None"
    by code_simp+
  have b: "live kv_single ''a'' 2000"
    by code_simp
  from a b key_a_ok delete_not_live [of "kv_deadline (- 5) 1000" "''a''" 2000]
    delete_not_live [of kv_single "''a''" 2000]
  show ?thesis by auto
qed

text \<open>
  The claim as it stands fails on an engine recovered from a log that holds a deadline
  for a key without a value: the key is not live, the liveness check leaves its TTL
  entry where it is, and \<open>delete\<close> removes the entry.
\<close>

theorem delete_not_live_counterexample:
  "\<not> live (kv_init (Some (''EXPIREAT k 5'' @ [NL]))) ''k'' 0
   \<and> e_ttl (snd (is_alive (kv_init (Some (''EXPIREAT k 5'' @ [NL]))) ''k'' 0)) ''k'' = Some 5
   \<and> e_ttl (snd (kv_delete (kv_init (Some (''EXPIREAT k 5'' @ [NL]))) ''k'' 0)) ''k'' = None"
  by code_simp


section \<open>The consistency of index, tombstones and TTL table\<close>

lemma triple_ok_iff:
  "triple_ok s \<longleftrightarrow>
     (\<forall>k. e_ttl s k \<noteq> None \<longrightarrow> k \<notin> e_tombstones s \<and> index_get (e_index s) k \<noteq> None)"
  by (auto simp: triple_ok_def dom_def)

lemma triple_ok_is_alive: "triple_ok s \<Longrightarrow> triple_ok (snd (is_alive s key now))"
  by (auto simp: is_alive_cases triple_ok_iff lazy_expire_def split: option.splits)

lemma triple_ok_set: "triple_ok s \<Longrightarrow> triple_ok (snd (kv_set s key val))"
  by (auto simp: kv_set_def triple_ok_iff index_get_set split: sum.splits)

lemma triple_ok_get: "triple_ok s \<Longrightarrow> triple_ok (snd (kv_get s key now))"
  by (auto simp: kv_get_def is_alive_cases triple_ok_iff lazy_expire_def split: option.splits)

lemma triple_ok_delete: "triple_ok s \<Longrightarrow> triple_ok (snd (kv_delete s key now))"
  by (auto simp: kv_delete_def is_alive_cases triple_ok_iff lazy_expire_def Let_def
           split: option.splits sum.splits)

lemma triple_ok_expire: "triple_ok s \<Longrightarrow> triple_ok (snd (kv_expire s key ms now))"
  by (auto simp: kv_expire_def is_alive_cases triple_ok_iff lazy_expire_def Let_def
           split: option.splits sum.splits)

lemma triple_ok_ttl: "triple_ok s \<Longrightarrow> triple_ok (snd (kv_ttl s key now))"
  by (auto simp: kv_ttl_def is_alive_cases triple_ok_iff lazy_expire_def split: option.splits)

lemma triple_ok_persist: "triple_ok s \<Longrightarrow> triple_ok (snd (kv_persist s key now))"
  by (auto simp: kv_persist_def is_alive_cases triple_ok_iff lazy_expire_def Let_def
           split: option.splits sum.splits)

lemma triple_ok_range_loop:
  "triple_ok s \<Longrightarrow> triple_ok (snd (range_loop s start endk now items))"
proof (induction items arbitrary: s)
  case Nil
  then show ?case by simp
next
  case (Cons kv items)
  obtain k v where kv: "kv = (k, v)" by (cases kv)
  from Cons.prems have "triple_ok (snd (is_alive s k now))"
    by (rule triple_ok_is_alive)
  then have "triple_ok (snd (range_loop (snd (is_alive s k now)) start endk now items))"
    by (rule Cons.IH)
  with Cons.IH [OF Cons.prems] show ?case
    by (auto simp: kv split: prod.splits bool.splits)
qed

lemma triple_ok_init: "triple_ok (kv_init None)"
  by (simp add: kv_init_def load_from_log_def replay_def load_records_def triple_ok_def)

text \<open>
  Claim C10. In every state reached from the empty engine by \<open>set\<close>, \<open>get\<close>, \<open>delete\<close>,
  \<open>exists\<close>, \<open>expire\<close>, \<open>ttl\<close>, \<open>persist\<close> and \<open>range\<close>, no key is both in the tombstone
  set and in the TTL table, and every key of the TTL table has an entry in the index.
\<close>

theorem reachable_triple_ok: "reachable s \<Longrightarrow> triple_ok s"
proof (induction rule: reachable.induct)
  case r_init
  show ?case by (rule triple_ok_init)
next
  case (r_range s start endk now)
  then show ?case by (simp add: range_keys_def triple_ok_range_loop)
qed (simp_all add: triple_ok_set triple_ok_get triple_ok_delete triple_ok_expire triple_ok_ttl
       triple_ok_persist triple_ok_is_alive kv_exists_def)

theorem reachable_triple_ok_witness:
  "reachable (kv_deadline (- 5) 1000) \<and> triple_ok (kv_deadline (- 5) 1000)"
proof -
  have "reachable (snd (kv_set (kv_init None) ''a'' ''1''))"
    by (intro r_set r_init)
  then have r: "reachable (kv_deadline (- 5) 1000)"
    unfolding kv_deadline_def kv_single_def by (rule r_expire)
  from r reachable_triple_ok [OF r] show ?thesis by simp
qed

section \<open>Integers written and read back\<close>














section \<open>The transaction overlay\<close>










text \<open>
  Claim C5. \<open>handle_begin\<close> and \<open>handle_abort\<close> never change the engine, and inside a
  transaction \<open>handle_set\<close> does not change it either, whatever its arguments: the
  engine (index, tombstones, TTL table and log file) after \<open>begin(); set(k,v); abort()\<close>
  is the engine before, from every session. \<open>handle_abort\<close> in a transaction empties
  the buffer and the op-log and closes the transaction; with no transaction open it
  answers \<open>ERR no transaction\<close> and changes nothing else.
\<close>

theorem abort_discards:
  "kv (snd (handle_begin args0 st)) = kv st
   \<and> (in_tx st \<longrightarrow> kv (snd (handle_set args st)) = kv st \<and> fst (handle_set args st) = None)
   \<and> (in_tx st \<longrightarrow>
        handle_abort args1 st =
          (None, st\<lparr>in_tx := False, tx_buffer := Map.empty, tx_ops := [],
                     out := out st @ [MSG_OK]\<rparr>))
   \<and> (\<not> in_tx st \<longrightarrow> handle_abort args1 st = (None, st\<lparr>out := out st @ [ERR_NO_TX]\<rparr>))
   \<and> kv (snd (handle_abort args1 (snd (handle_set [k, v] (snd (handle_begin args0 st)))))) = kv st
   \<and> (\<not> in_tx st \<longrightarrow>
        \<not> in_tx (snd (handle_abort args1 (snd (handle_set [k, v] (snd (handle_begin args0 st))))))
        \<and> tx_ops (snd (handle_abort args1 (snd (handle_set [k, v] (snd (handle_begin args0 st)))))) = []
        \<and> tx_buffer (snd (handle_abort args1 (snd (handle_set [k, v] (snd (handle_begin args0 st))))))
            = Map.empty)"
  by (auto simp: handle_begin_def handle_set_def handle_abort_def print_def Let_def)

theorem abort_discards_witness:
  "\<not> in_tx (session_init kv_single)
   \<and> handle_abort [] (session_init kv_single) =
        (None, (session_init kv_single)\<lparr>out := out (session_init kv_single) @ [ERR_NO_TX]\<rparr>)
   \<and> kv (snd (handle_abort [] (snd (handle_set [''a'', ''9'']
         (snd (handle_begin [] (session_init kv_single))))))) = kv_single
   \<and> \<not> in_tx (snd (handle_abort [] (snd (handle_set [''a'', ''9'']
         (snd (handle_begin [] (session_init kv_single)))))))
   \<and> in_tx tx_example
   \<and> kv (snd (handle_set [''a'', ''9''] tx_example)) = kv tx_example
   \<and> handle_abort [] tx_example =
        (None, tx_example\<lparr>in_tx := False, tx_buffer := Map.empty, tx_ops := [],
                  out := out tx_example @ [MSG_OK]\<rparr>)"
proof -
  have a: "\<not> in_tx (session_init kv_single)" "kv (session_init kv_single) = kv_single"
    by (simp_all add: session_init_def)
  have b: "in_tx tx_example"
    by code_simp
  from a b
    abort_discards [of "[]" "session_init kv_single" "[''a'', ''9'']" "[]" "''a''" "''9''"]
    abort_discards [of "[]" tx_example "[''a'', ''9'']" "[]" "''a''" "''9''"]
  show ?thesis by simp
qed

section \<open>The last line of the log\<close>

text \<open>
  A log whose last line has no terminator is replayed like the same log with a line
  feed at its end, in either mode.
\<close>

lemma rstrip_nl_snoc: "rstrip_nl (s @ [NL]) = rstrip_nl s"
  by (simp add: rstrip_nl_def)

lemma readlines_unterminated:
  "t \<noteq> [] \<Longrightarrow> last t \<noteq> NL \<Longrightarrow> last t \<noteq> CR \<Longrightarrow>
   map rstrip_nl (readlines cur (t @ [NL])) = map rstrip_nl (readlines cur t)"
proof (induction cur t rule: readlines.induct)
  case (1 cur)
  then show ?case by simp
next
  case (2 cur c)
  then show ?case
    using rstrip_nl_snoc [of "cur @ [c]"] by simp
next
  case (3 cur c d cs)
  show ?case
  proof (cases "c = CR \<and> d = NL")
    case True
    with "3.prems" have "cs \<noteq> []" by auto
    with True "3.prems" "3.IH"(2) show ?thesis
      by (cases cs) (auto simp: NL_def CR_def)
  next
    case False
    with "3.prems" "3.IH"(1,3,4) show ?thesis
      by auto
  qed
qed

lemma replay_lines_rstrip:
  "map rstrip_nl ls = map rstrip_nl ls' \<Longrightarrow> replay_lines cfg ls = replay_lines cfg ls'"
proof (induction ls arbitrary: ls')
  case Nil
  then show ?case by simp
next
  case (Cons l ls)
  then obtain l' ls'' where "ls' = l' # ls''" "rstrip_nl l = rstrip_nl l'"
    "map rstrip_nl ls = map rstrip_nl ls''"
    by (cases ls') auto
  with Cons.IH [of ls''] show ?case
    by (auto simp: Let_def split: option.splits)
qed

lemma replay_unterminated:
  "t \<noteq> [] \<Longrightarrow> last t \<noteq> NL \<Longrightarrow> last t \<noteq> CR \<Longrightarrow>
   replay cfg (Some t) = replay cfg (Some (t @ [NL]))"
  by (simp add: replay_def replay_lines_rstrip [OF readlines_unterminated [symmetric]])

text \<open>
  Claim C3 (the code departs from it). The log below ends in a line without a
  terminator. \<open>replay\<close> yields the record of that line after the record of the line
  before it: the look at the last character only writes a warning, and the loop over
  the lines reads the last line like any other. The text with the terminator added
  yields the same records, as it does for every log (\<open>replay_unterminated\<close>).
\<close>

theorem replay_yields_unterminated_line:
  "replay default_cfg (Some (''SET a 1'' @ [NL] @ ''SET b 2''))
     = ([(''SET'', ''a'', ''1''), (''SET'', ''b'', ''2'')], None)
   \<and> replay default_cfg (Some (''SET a 1'' @ [NL] @ ''SET b 2'' @ [NL]))
     = ([(''SET'', ''a'', ''1''), (''SET'', ''b'', ''2'')], None)"
  by code_simp


section \<open>The keys that range yields\<close>

text \<open>
  On an engine reached from the empty one, \<open>range_keys\<close> yields, in ascending order, the
  keys of the index that pass \<open>range_visible\<close> and are live.
\<close>

lemma live_lazy_expire_other: "k' \<noteq> k \<Longrightarrow> live (lazy_expire s k) k' now = live s k' now"
  by (simp add: live_def lazy_expire_def)

lemma is_alive_live_other:
  "k' \<noteq> k \<Longrightarrow> live (snd (is_alive s k now)) k' now = live s k' now"
  by (simp add: is_alive_cases live_lazy_expire_other split: option.splits)

lemma fst_is_alive: "fst (is_alive s k now) = live s k now"
  by (auto simp: is_alive_cases live_def split: option.splits)

lemma range_loop_yields:
  "distinct (map fst items) \<Longrightarrow>
   fst (range_loop s start endk now items) =
     filter (\<lambda>k. range_visible start endk k \<and> live s k now) (map fst items)"
proof (induction items arbitrary: s)
  case Nil
  then show ?case by simp
next
  case (Cons kv items)
  obtain k v where kv: "kv = (k, v)" by (cases kv)
  from Cons.prems have d: "distinct (map fst items)" and nk: "k \<notin> fst ` set items"
    by (simp_all add: kv)
  show ?case
  proof (cases "range_visible start endk k")
    case False
    with Cons.IH [OF d, of s] show ?thesis
      by (auto simp: kv range_visible_def)
  next
    case True
    obtain b s' where a: "is_alive s k now = (b, s')" by (cases "is_alive s k now")
    have b: "b = live s k now"
      using fst_is_alive [of s k now] by (simp add: a)
    have "live s' k' now = live s k' now" if "k' \<in> set (map fst items)" for k'
    proof -
      from that nk have "k' \<noteq> k" by auto
      then show ?thesis
        using is_alive_live_other [of k' k s now] by (simp add: a)
    qed
    then have "filter (\<lambda>k. range_visible start endk k \<and> live s' k now) (map fst items)
        = filter (\<lambda>k. range_visible start endk k \<and> live s k now) (map fst items)"
      by (intro filter_cong) auto
    with Cons.IH [OF d, of s'] True a b show ?thesis
      by (auto simp: kv range_visible_def split: prod.splits)
  qed
qed

lemma set_index_set: "fst ` set (index_set idx key val) = insert key (fst ` set idx)"
  by (induction idx key val rule: index_set.induct) auto

lemma index_set_sorted:
  "sorted_wrt (<) (map fst idx) \<Longrightarrow> sorted_wrt (<) (map fst (index_set idx key val))"
proof (induction idx key val rule: index_set.induct)
  case (1 key val)
  then show ?case by simp
next
  case (2 k v rest key val)
  then show ?case
    using set_index_set [of rest key val] by (auto simp: image_iff)
qed

lemma e_index_is_alive: "e_index (snd (is_alive s key now)) = e_index s"
  by (simp add: is_alive_cases lazy_expire_def split: option.splits)

lemma e_index_range_loop: "e_index (snd (range_loop s start endk now items)) = e_index s"
proof (induction items arbitrary: s)
  case Nil
  then show ?case by simp
next
  case (Cons kv items)
  obtain k v where kv: "kv = (k, v)" by (cases kv)
  show ?case
    using Cons.IH [of s] Cons.IH [of "snd (is_alive s k now)"] e_index_is_alive [of s k now]
    by (auto simp: kv split: prod.splits bool.splits)
qed

lemma reachable_index_sorted: "reachable s \<Longrightarrow> sorted_wrt (<) (map fst (e_index s))"
proof (induction rule: reachable.induct)
  case r_init
  show ?case
    by (simp add: kv_init_def load_from_log_def replay_def load_records_def index_new_def)
next
  case (r_set s key val)
  then show ?case
    by (auto simp: kv_set_def index_set_sorted split: sum.splits)
next
  case (r_get s key now)
  then show ?case
    using e_index_is_alive [of s key now] by (auto simp: kv_get_def split: prod.splits bool.splits)
next
  case (r_delete s key now)
  then show ?case
    using e_index_is_alive [of s key now]
    by (auto simp: kv_delete_def Let_def split: prod.splits bool.splits sum.splits)
next
  case (r_exists s key now)
  then show ?case by (simp add: kv_exists_def e_index_is_alive)
next
  case (r_expire s key ms now)
  then show ?case
    using e_index_is_alive [of s key now]
    by (auto simp: kv_expire_def Let_def split: prod.splits bool.splits sum.splits)
next
  case (r_ttl s key now)
  then show ?case
    using e_index_is_alive [of s key now]
    by (auto simp: kv_ttl_def split: prod.splits bool.splits option.splits)
next
  case (r_persist s key now)
  then show ?case
    using e_index_is_alive [of s key now]
    by (auto simp: kv_persist_def Let_def split: prod.splits bool.splits sum.splits)
next
  case (r_range s start endk now)
  then show ?case by (simp add: range_keys_def e_index_range_loop)
qed

lemma uuid_re_match_hidden: "uuid_re_match k \<Longrightarrow> CHR ''-'' \<in> set k \<and> length k > 16"
proof -
  assume u: "uuid_re_match k"
  define body where "body = (if k \<noteq> [] \<and> last k = NL then butlast k else k)"
  from u have l: "length body = 36" and h: "take 1 (drop 8 body) = ''-''"
    by (simp_all add: uuid_re_match_def body_def Let_def)
  from h have "CHR ''-'' \<in> set (take 1 (drop 8 body))"
    by simp
  then have "CHR ''-'' \<in> set body"
    by (blast dest: in_set_takeD in_set_dropD)
  moreover have "set body \<subseteq> set k" "length body \<le> length k"
    by (auto simp: body_def dest: in_set_butlastD)
  ultimately show ?thesis using l by auto
qed

lemma range_keys_yields:
  assumes "reachable s"
  shows "fst (range_keys s start endk now) =
           filter (\<lambda>k. range_visible start endk k \<and> live s k now) (map fst (e_index s))"
    and "sorted_wrt (<) (fst (range_keys s start endk now))"
proof -
  have so: "sorted_wrt (<) (map fst (e_index s))"
    using assms by (rule reachable_index_sorted)
  then have "distinct (map fst (e_index s))"
    by (simp add: strict_sorted_iff)
  then show 1: "fst (range_keys s start endk now) =
           filter (\<lambda>k. range_visible start endk k \<and> live s k now) (map fst (e_index s))"
    by (simp add: range_keys_def index_items_def range_loop_yields)
  show "sorted_wrt (<) (fst (range_keys s start endk now))"
    unfolding 1 using so by (rule sorted_wrt_filter)
qed

text \<open>
  Claim C6 (the code departs from it). \<open>range_keys\<close> does not test a key against
  \<open>_UUID_RE\<close>: it skips every key that has a hyphen and more than 16 characters. The
  key \<open>user-profile-settings\<close> does not match \<open>_UUID_RE\<close>, is live and lies within the
  open bounds, and \<open>range\<close> does not yield it; \<open>get\<close> returns its value. (What
  \<open>range\<close> yields in general is stated in \<open>range_keys_yields\<close>; every key that matches
  \<open>_UUID_RE\<close> is among the hidden ones, \<open>uuid_re_match_hidden\<close>.)
\<close>

theorem range_hides_hyphenated_key:
  "\<not> uuid_re_match ''user-profile-settings''
   \<and> live (snd (kv_set kv_single ''user-profile-settings'' ''2'')) ''user-profile-settings'' 0
   \<and> fst (kv_get (snd (kv_set kv_single ''user-profile-settings'' ''2''))
         ''user-profile-settings'' 0) = Some ''2''
   \<and> fst (range_keys (snd (kv_set kv_single ''user-profile-settings'' ''2'')) [] [] 0) = [''a'']"
  by code_simp


end
